theory Spec2Isabelle
  imports Complex_Main "HOL-Library.Word"
begin

section \<open>Values of type double\<close>

text \<open>
  A C \<^verbatim>\<open>double\<close> is a finite number, an infinity or a NaN. Finite values are read as
  real numbers and the operations on them as the exact real operations: rounding,
  overflow to an infinity and the sign of zero are not part of this model. The
  exceptional values are kept, because the sampler divides by a uniform draw that may
  be zero and then compares the quotient.
\<close>

datatype dbl = Fin real | PInf | NInf | NaN

text \<open>\<^verbatim>\<open>x / y\<close> for finite operands, the divisor being \<^verbatim>\<open>+0.0\<close> when it is zero.\<close>

definition div_double :: "real \<Rightarrow> real \<Rightarrow> dbl" where
  "div_double x y =
     (if y \<noteq> 0 then Fin (x / y)
      else if 0 < x then PInf
      else if x < 0 then NInf
      else NaN)"

fun fabs :: "dbl \<Rightarrow> dbl" where
  "fabs (Fin x) = Fin \<bar>x\<bar>"
| "fabs PInf = PInf"
| "fabs NInf = PInf"
| "fabs NaN = NaN"

text \<open>The comparison \<^verbatim>\<open>a < b\<close>: false whenever an operand is a NaN.\<close>

fun dbl_less :: "dbl \<Rightarrow> dbl \<Rightarrow> bool" where
  "dbl_less (Fin x) (Fin y) = (x < y)"
| "dbl_less (Fin x) PInf = True"
| "dbl_less NInf (Fin y) = True"
| "dbl_less NInf PInf = True"
| "dbl_less _ _ = False"

text \<open>\<^verbatim>\<open>a > b\<close> is \<^verbatim>\<open>b < a\<close>.\<close>

definition dbl_greater :: "dbl \<Rightarrow> dbl \<Rightarrow> bool" where
  "dbl_greater a b = dbl_less b a"

fun dbl_times :: "dbl \<Rightarrow> dbl \<Rightarrow> dbl" where
  "dbl_times (Fin x) (Fin y) = Fin (x * y)"
| "dbl_times NaN _ = NaN"
| "dbl_times _ NaN = NaN"
| "dbl_times (Fin x) PInf = (if 0 < x then PInf else if x < 0 then NInf else NaN)"
| "dbl_times (Fin x) NInf = (if 0 < x then NInf else if x < 0 then PInf else NaN)"
| "dbl_times PInf (Fin y) = (if 0 < y then PInf else if y < 0 then NInf else NaN)"
| "dbl_times NInf (Fin y) = (if 0 < y then NInf else if y < 0 then PInf else NaN)"
| "dbl_times PInf PInf = PInf"
| "dbl_times NInf NInf = PInf"
| "dbl_times PInf NInf = NInf"
| "dbl_times NInf PInf = NInf"

fun dbl_plus :: "dbl \<Rightarrow> dbl \<Rightarrow> dbl" where
  "dbl_plus (Fin x) (Fin y) = Fin (x + y)"
| "dbl_plus NaN _ = NaN"
| "dbl_plus _ NaN = NaN"
| "dbl_plus PInf NInf = NaN"
| "dbl_plus NInf PInf = NaN"
| "dbl_plus PInf _ = PInf"
| "dbl_plus _ PInf = PInf"
| "dbl_plus NInf _ = NInf"
| "dbl_plus _ NInf = NInf"

text \<open>\<^verbatim>\<open>pow(x, 2)\<close>.\<close>

fun pow_2 :: "dbl \<Rightarrow> dbl" where
  "pow_2 (Fin x) = Fin (x\<^sup>2)"
| "pow_2 PInf = PInf"
| "pow_2 NInf = PInf"
| "pow_2 NaN = NaN"

fun dbl_cos :: "dbl \<Rightarrow> dbl" where
  "dbl_cos (Fin x) = Fin (cos x)"
| "dbl_cos _ = NaN"

fun dbl_sin :: "dbl \<Rightarrow> dbl" where
  "dbl_sin (Fin x) = Fin (sin x)"
| "dbl_sin _ = NaN"

text \<open>\<^verbatim>\<open>log(x)\<close>: minus infinity at zero, a NaN below it.\<close>

fun dbl_log :: "dbl \<Rightarrow> dbl" where
  "dbl_log (Fin x) = (if 0 < x then Fin (ln x) else if x = 0 then NInf else NaN)"
| "dbl_log PInf = PInf"
| "dbl_log _ = NaN"

text \<open>
  The two-argument arctangent of the C library on finite arguments: the angle of the
  point \<open>(x, y)\<close>, and 0 at the origin.
\<close>

definition atan2 :: "real \<Rightarrow> real \<Rightarrow> real" where
  "atan2 y x =
     (if 0 < x then arctan (y / x)
      else if x < 0 then (if 0 \<le> y then arctan (y / x) + pi else arctan (y / x) - pi)
      else if 0 < y then pi / 2
      else if y < 0 then - (pi / 2)
      else 0)"

fun dbl_atan2 :: "dbl \<Rightarrow> dbl \<Rightarrow> dbl" where
  "dbl_atan2 (Fin y) (Fin x) = Fin (atan2 y x)"
| "dbl_atan2 NaN _ = NaN"
| "dbl_atan2 _ NaN = NaN"
| "dbl_atan2 (Fin y) PInf = Fin 0"
| "dbl_atan2 (Fin y) NInf = (if 0 \<le> y then Fin pi else Fin (- pi))"
| "dbl_atan2 PInf (Fin x) = Fin (pi / 2)"
| "dbl_atan2 NInf (Fin x) = Fin (- (pi / 2))"
| "dbl_atan2 PInf PInf = Fin (pi / 4)"
| "dbl_atan2 NInf PInf = Fin (- (pi / 4))"
| "dbl_atan2 PInf NInf = Fin (3 * pi / 4)"
| "dbl_atan2 NInf NInf = Fin (- (3 * pi / 4))"

section \<open>The sampler\<close>

subsection \<open>The sampling parameter\<close>

text \<open>
  \<^verbatim>\<open>if ( kappa > 1.3 ) samplingParameter = 1 / ( sqrt(kappa) );
  else samplingParameter = M_PI * exp( -kappa );\<close>
  The literal \<^verbatim>\<open>1.3\<close> is a double: the one nearest to 13/10, which is
  \<open>5854679515581645 / 2\<^sup>5\<^sup>2\<close>, a little above 13/10. Comparing two doubles involves no
  rounding, so the test is written with that value.
\<close>

definition samplingParameter :: "real \<Rightarrow> real" where
  "samplingParameter kappa =
     (if kappa > 5854679515581645 / 2 ^ 52 then 1 / sqrt kappa else pi * exp (- kappa))"

subsection \<open>One pass through the body of the rejection loop\<close>

text \<open>
  \<^verbatim>\<open>angle = samplingParameter * ( 2 * randomSample2 - 1 ) / randomSample1;\<close>
\<close>

definition sample_angle :: "real \<Rightarrow> real \<Rightarrow> real \<Rightarrow> dbl" where
  "sample_angle s randomSample1 randomSample2 =
     div_double (s * (2 * randomSample2 - 1)) randomSample1"

text \<open>The two ways a pass ends: \<^verbatim>\<open>continue\<close> (draw again) and \<^verbatim>\<open>break\<close> (keep the angle).\<close>

datatype verdict = Continue | Break

definition sample_test :: "real \<Rightarrow> real \<Rightarrow> dbl \<Rightarrow> verdict" where
  "sample_test kappa randomSample1 angle =
     (if dbl_greater (fabs angle) (Fin pi) then Continue
      else if dbl_less (dbl_times (Fin kappa) (pow_2 angle)) (Fin (4 - 4 * randomSample1))
        then Break
      else if dbl_less (dbl_times (Fin kappa) (dbl_cos angle))
                (dbl_plus (dbl_times (Fin 2) (dbl_log (Fin randomSample1))) (Fin kappa))
        then Continue
      else Break)"

subsection \<open>The C library's generator and clocks\<close>

text \<open>
  \<^verbatim>\<open>stdlib.h\<close> is not part of the repository, so the macro \<^verbatim>\<open>RAND_MAX\<close> and the
  generator behind \<^verbatim>\<open>srand\<close> and \<^verbatim>\<open>rand\<close> are parameters. The generator has a state
  that lives across calls: \<open>srand seed g\<close> is its state after \<^verbatim>\<open>srand(seed)\<close> in the
  state \<open>g\<close>, and \<open>rand g\<close> is the next number and the next state.
  The C standard makes \<^verbatim>\<open>RAND_MAX\<close> at least 32767 and \<^verbatim>\<open>rand()\<close> return a number
  from 0 to \<^verbatim>\<open>RAND_MAX\<close>; a theorem that needs one of these facts assumes it.
\<close>

record 'g libc =
  RAND_MAX :: nat
  srand :: "32 word \<Rightarrow> 'g \<Rightarrow> 'g"
  rand :: "'g \<Rightarrow> nat \<times> 'g"

text \<open>
  What a call finds: the values that \<^verbatim>\<open>time(NULL)\<close>, \<^verbatim>\<open>clock()\<close> and \<^verbatim>\<open>random()\<close>
  return, and the state in which earlier calls of \<^verbatim>\<open>srand\<close> and \<^verbatim>\<open>rand\<close> have left the
  generator.
\<close>

record 'g clocks =
  time_NULL :: int
  clock_ticks :: int
  random_long :: int
  generator :: 'g

text \<open>
  \<^verbatim>\<open>srand( time(NULL) + clock() + random() );\<close> The sum is converted to the
  \<^verbatim>\<open>unsigned int\<close> that \<^verbatim>\<open>srand\<close> takes.
\<close>

definition sample_seed :: "'g clocks \<Rightarrow> 32 word" where
  "sample_seed c = word_of_int (time_NULL c + clock_ticks c + random_long c)"

text \<open>\<^verbatim>\<open>(double) rand() / (double) RAND_MAX\<close>, for the value \<open>r\<close> that \<^verbatim>\<open>rand()\<close> returned.\<close>

definition uniform :: "'g libc \<Rightarrow> nat \<Rightarrow> real" where
  "uniform L r = real r / real (RAND_MAX L)"

subsection \<open>The rejection loop\<close>

text \<open>
  \<^verbatim>\<open>while ( true ) { ... }\<close> The loop has no bound, so its model is a partial function:
  \<open>None\<close> is the loop that never leaves. It returns the accepted angle and the
  generator's state.
\<close>

partial_function (option) sample_while ::
  "'g libc \<Rightarrow> real \<Rightarrow> real \<Rightarrow> 'g \<Rightarrow> (dbl \<times> 'g) option" where
  "sample_while L kappa s g =
     (let (r1, g1) = rand L g;
          randomSample1 = uniform L r1;
          (r2, g2) = rand L g1;
          randomSample2 = uniform L r2;
          angle = sample_angle s randomSample1 randomSample2
      in if sample_test kappa randomSample1 angle = Continue
         then sample_while L kappa s g2
         else Some (angle, g2))"

subsection \<open>The loop over the output vector\<close>

text \<open>
  \<^verbatim>\<open>angles[i] = atan2( sin(angle + mu), cos(angle + mu) );\<close>
\<close>

definition sample_assign :: "dbl \<Rightarrow> real \<Rightarrow> dbl" where
  "sample_assign angle mu =
     dbl_atan2 (dbl_sin (dbl_plus angle (Fin mu))) (dbl_cos (dbl_plus angle (Fin mu)))"

text \<open>Every way a call can end other than by returning the samples.\<close>

datatype error =
    Err_nrhs
  | Err_nlhs
  | Err_notScalar
  | Err_notRealPositiveScalar
  | Err_notIntPositiveScalar
  | Undefined_behaviour

text \<open>
  \<^verbatim>\<open>for ( i = 0; i < numSamples; i++ ) { while ... ; angles[i] = ... }\<close>
  A store past the end of \<open>angles\<close> is undefined behaviour in C.
\<close>

function sample_for ::
  "'g libc \<Rightarrow> real \<Rightarrow> real \<Rightarrow> real \<Rightarrow> nat \<Rightarrow> nat \<Rightarrow> dbl list \<Rightarrow> 'g \<Rightarrow> (error + dbl list) option" where
  "sample_for L mu kappa s numSamples i angles g =
     (if i < numSamples then
        (case sample_while L kappa s g of
           None \<Rightarrow> None
         | Some (angle, g') \<Rightarrow>
             if i < length angles
             then sample_for L mu kappa s numSamples (i + 1)
                    (angles[i := sample_assign angle mu]) g'
             else Some (Inl Undefined_behaviour))
      else Some (Inr angles))"
  by pat_completeness auto
termination
  by (relation "measure (\<lambda>(L, mu, kappa, s, numSamples, i, angles, g). numSamples - i)") auto

text \<open>\<^verbatim>\<open>void sample(double mu, double kappa, double *angles, mwSize numSamples)\<close>\<close>

definition sample ::
  "'g libc \<Rightarrow> 'g clocks \<Rightarrow> real \<Rightarrow> real \<Rightarrow> dbl list \<Rightarrow> nat \<Rightarrow>
     (error + dbl list) option" where
  "sample L c mu kappa angles numSamples =
     (let g = srand L (sample_seed c) (generator c);
          s = samplingParameter kappa
      in sample_for L mu kappa s numSamples 0 angles g)"

section \<open>The entry point\<close>

text \<open>
  An argument as the three queries of the MEX interface see it: \<^verbatim>\<open>mxIsDouble\<close>,
  \<^verbatim>\<open>mxIsScalar\<close> and \<^verbatim>\<open>mxGetScalar\<close>, the last one taken to be finite.
\<close>

datatype mxArray = MxArray (mxIsDouble: bool) (mxIsScalar: bool) (mxGetScalar: real)

text \<open>
  \<^verbatim>\<open>(int) x\<close>: the value truncated toward zero; undefined behaviour when the truncated
  value is not an \<^verbatim>\<open>int\<close> (32 bits).
\<close>

definition trunc :: "real \<Rightarrow> int" where
  "trunc x = (if 0 \<le> x then \<lfloor>x\<rfloor> else \<lceil>x\<rceil>)"

definition cast_int :: "real \<Rightarrow> int option" where
  "cast_int x =
     (if - (2 ^ 31) \<le> trunc x \<and> trunc x < 2 ^ 31 then Some (trunc x) else None)"

text \<open>
  The checks of \<^verbatim>\<open>mexFunction\<close>, up to the allocation of the output: the error of the
  first failing check, or \<open>mu\<close>, \<open>kappa\<close> and \<open>numSamples\<close>. \<open>prhs\<close> is the list of
  the \<open>nrhs\<close> arguments. \<^verbatim>\<open>mexErrMsgIdAndTxt\<close> does not return.
\<close>

definition mexFunction_check :: "int \<Rightarrow> mxArray list \<Rightarrow> error + (real \<times> real \<times> nat)" where
  "mexFunction_check nlhs prhs =
     (let nrhs = length prhs in
      if nrhs \<noteq> 2 \<and> nrhs \<noteq> 3 then Inl Err_nrhs
      else if nlhs \<noteq> 1 then Inl Err_nlhs
      else if \<not> mxIsDouble (prhs ! 0) \<or> \<not> mxIsScalar (prhs ! 0) \<or>
              mxGetScalar (prhs ! 0) < - pi \<or> mxGetScalar (prhs ! 0) > pi
        then Inl Err_notScalar
      else if \<not> mxIsDouble (prhs ! 1) \<or> \<not> mxIsScalar (prhs ! 1) \<or>
              mxGetScalar (prhs ! 1) < 0
        then Inl Err_notRealPositiveScalar
      else if nrhs \<noteq> 3 then Inr (mxGetScalar (prhs ! 0), mxGetScalar (prhs ! 1), 1)
      else if \<not> mxIsDouble (prhs ! 2) \<or> \<not> mxIsScalar (prhs ! 2) \<or>
              mxGetScalar (prhs ! 2) \<le> 0
        then Inl Err_notIntPositiveScalar
      else (case cast_int (mxGetScalar (prhs ! 2)) of
              None \<Rightarrow> Inl Undefined_behaviour
            | Some n \<Rightarrow> Inr (mxGetScalar (prhs ! 0), mxGetScalar (prhs ! 1), nat n)))"

text \<open>
  \<^verbatim>\<open>void mexFunction(int nlhs, mxArray *plhs[], int nrhs, const mxArray *prhs[])\<close>
  The result is the content of \<^verbatim>\<open>plhs[0]\<close>, which \<^verbatim>\<open>mxCreateDoubleMatrix\<close> creates
  with \<open>numSamples\<close> zeros. Running out of memory there is not modelled.
\<close>

definition mexFunction ::
  "'g libc \<Rightarrow> 'g clocks \<Rightarrow> int \<Rightarrow> mxArray list \<Rightarrow> (error + dbl list) option" where
  "mexFunction L c nlhs prhs =
     (case mexFunction_check nlhs prhs of
        Inl e \<Rightarrow> Some (Inl e)
      | Inr (mu, kappa, numSamples) \<Rightarrow>
          sample L c mu kappa (replicate numSamples (Fin 0)) numSamples)"

section \<open>Generators for the examples\<close>

text \<open>
  The library whose \<^verbatim>\<open>rand()\<close> returns \<open>r\<close> at every call, with \<^verbatim>\<open>RAND_MAX\<close> equal
  to \<open>m\<close>.
\<close>

definition constant_libc :: "nat \<Rightarrow> nat \<Rightarrow> unit libc" where
  "constant_libc m r = \<lparr>RAND_MAX = m, srand = (\<lambda>seed g. ()), rand = (\<lambda>g. (r, g))\<rparr>"

text \<open>
  The generator that the C standard gives as an example, with \<^verbatim>\<open>RAND_MAX\<close> 32767 and a
  state \<^verbatim>\<open>next\<close> of 64 bits: \<^verbatim>\<open>srand\<close> stores the seed in \<^verbatim>\<open>next\<close>, and \<^verbatim>\<open>rand\<close> is
  \<^verbatim>\<open>next = next * 1103515245 + 12345; return (unsigned int)(next/65536) % 32768;\<close>
\<close>

definition iso_libc :: "nat libc" where
  "iso_libc =
     \<lparr>RAND_MAX = 32767,
      srand = (\<lambda>seed g. unat seed),
      rand = (\<lambda>next. let n = (next * 1103515245 + 12345) mod 2 ^ 64
                     in ((n div 65536) mod 32768, n))\<rparr>"

section \<open>Passes of the rejection loop\<close>

text \<open>
  Two notions used to say when the rejection loop returns: \<open>pass_breaks\<close> holds in a
  generator state from which the next pass ends with \<^verbatim>\<open>break\<close>, and \<open>next_pass\<close> is the
  generator state after one pass, that is after two calls of \<^verbatim>\<open>rand()\<close>.
\<close>

definition pass_breaks :: "'g libc \<Rightarrow> real \<Rightarrow> real \<Rightarrow> 'g \<Rightarrow> bool" where
  "pass_breaks L kappa s g =
     (let (r1, g1) = rand L g; (r2, g2) = rand L g1
      in sample_test kappa (uniform L r1) (sample_angle s (uniform L r1) (uniform L r2)) = Break)"

definition next_pass :: "'g libc \<Rightarrow> 'g \<Rightarrow> 'g" where
  "next_pass L g = snd (rand L (snd (rand L g)))"

text \<open>
  The recursion equation of \<open>sample_for\<close> is unfolded by hand where needed.
\<close>

declare sample_for.simps [simp del]

section \<open>The generator of the C standard\<close>

lemma iso_rand:
  "rand iso_libc g = ((((g * 1103515245 + 12345) mod 2 ^ 64) div 65536) mod 32768,
     (g * 1103515245 + 12345) mod 2 ^ 64)"
  by (simp add: iso_libc_def Let_def)

lemma iso_uniform: "uniform iso_libc r = real r / 32767"
  by (simp add: uniform_def iso_libc_def)

section \<open>The sampling parameter\<close>

lemma samplingParameter_pos: "0 < samplingParameter kappa"
  unfolding samplingParameter_def by (auto simp: field_simps)

text \<open>
  Claim C2. The sampling parameter is \<open>1 / sqrt kappa\<close> when \<open>kappa\<close> exceeds 1.3 and
  \<open>pi * exp (- kappa)\<close> otherwise, 1.3 being the double that the code compares with; at
  \<open>kappa = 0\<close> it is \<open>pi\<close>. For the input 1.3 itself the second branch is taken. That
  double lies above 13/10 by less than \<open>2\<^sup>-\<^sup>5\<^sup>3\<close>, and for every \<open>kappa\<close> outside the gap
  between the two the test agrees with \<open>kappa > 13 / 10\<close>. A call computes the
  parameter once, and every rejection loop of the call uses that value.
\<close>

theorem samplingParameter_cases:
  "(5854679515581645 / 2 ^ 52 < kappa \<longrightarrow> samplingParameter kappa = 1 / sqrt kappa) \<and>
   (kappa \<le> 5854679515581645 / 2 ^ 52 \<longrightarrow> samplingParameter kappa = pi * exp (- kappa)) \<and>
   samplingParameter 0 = pi \<and>
   samplingParameter (5854679515581645 / 2 ^ 52) = pi * exp (- (5854679515581645 / 2 ^ 52)) \<and>
   (13 / 10 :: real) < 5854679515581645 / 2 ^ 52 \<and>
   (5854679515581645 / 2 ^ 52 :: real) - 13 / 10 < 1 / 2 ^ 53 \<and>
   (kappa \<le> 13 / 10 \<or> 5854679515581645 / 2 ^ 52 < kappa \<longrightarrow>
      samplingParameter kappa =
        (if kappa > 13 / 10 then 1 / sqrt kappa else pi * exp (- kappa))) \<and>
   sample L c mu kappa angles numSamples =
     sample_for L mu kappa (samplingParameter kappa) numSamples 0 angles
       (srand L (sample_seed c) (generator c))"
proof -
  have gap: "(13 / 10 :: real) < 5854679515581645 / 2 ^ 52"
    "(5854679515581645 / 2 ^ 52 :: real) - 13 / 10 < 1 / 2 ^ 53"
    by simp_all
  have agree: "samplingParameter kappa =
      (if kappa > 13 / 10 then 1 / sqrt kappa else pi * exp (- kappa))"
    if "kappa \<le> 13 / 10 \<or> 5854679515581645 / 2 ^ 52 < kappa"
    using that gap(1) by (auto simp: samplingParameter_def)
  have run: "sample L c mu kappa angles numSamples =
      sample_for L mu kappa (samplingParameter kappa) numSamples 0 angles
        (srand L (sample_seed c) (generator c))"
    by (simp add: sample_def Let_def)
  show ?thesis
    using gap agree run by (simp add: samplingParameter_def)
qed

theorem samplingParameter_cases_witness:
  "samplingParameter 4 = 1 / 2 \<and> samplingParameter 1 = pi * exp (- 1) \<and>
   samplingParameter (13 / 10) = pi * exp (- (13 / 10)) \<and>
   samplingParameter (5854679515581645 / 2 ^ 52) = pi * exp (- (5854679515581645 / 2 ^ 52)) \<and>
   samplingParameter (5854679515581646 / 2 ^ 52) = 1 / sqrt (5854679515581646 / 2 ^ 52) \<and>
   samplingParameter 0 = pi"
  using samplingParameter_cases [of 4 iso_libc
      "\<lparr>time_NULL = 1700000000, clock_ticks = 88, random_long = 7, generator = 42\<rparr>" 0 "[]" 0]
    samplingParameter_cases [of 1 iso_libc
      "\<lparr>time_NULL = 1700000000, clock_ticks = 88, random_long = 7, generator = 42\<rparr>" 0 "[]" 0]
    samplingParameter_cases [of "13 / 10" iso_libc
      "\<lparr>time_NULL = 1700000000, clock_ticks = 88, random_long = 7, generator = 42\<rparr>" 0 "[]" 0]
    samplingParameter_cases [of "5854679515581646 / 2 ^ 52" iso_libc
      "\<lparr>time_NULL = 1700000000, clock_ticks = 88, random_long = 7, generator = 42\<rparr>" 0 "[]" 0]
  by simp

section \<open>One pass of the rejection loop\<close>

lemma sample_angle_Fin:
  "u1 \<noteq> 0 \<Longrightarrow> sample_angle s u1 u2 = Fin (s * (2 * u2 - 1) / u1)"
  by (simp add: sample_angle_def div_double_def)

lemma sample_angle_NaN:
  "sample_angle s u1 u2 = NaN \<longleftrightarrow> u1 = 0 \<and> (s = 0 \<or> 2 * u2 = 1)"
  by (auto simp: sample_angle_def div_double_def)

lemma sample_test_Fin:
  "0 < u1 \<Longrightarrow> sample_test kappa u1 (Fin a) =
       (if \<bar>a\<bar> > pi then Continue
        else if kappa * a\<^sup>2 < 4 - 4 * u1 then Break
        else if kappa * cos a < 2 * ln u1 + kappa then Continue
        else Break)"
  by (simp add: sample_test_def dbl_greater_def)

lemma sample_test_Break:
  "sample_test kappa u angle = Break \<Longrightarrow> angle = NaN \<or> (\<exists>a. angle = Fin a \<and> \<bar>a\<bar> \<le> pi)"
  by (cases angle) (auto simp: sample_test_def dbl_greater_def split: if_splits)

text \<open>
  Claim C1. A pass whose first draw \<open>u1\<close> is positive computes
  \<open>angle = s * (2 * u2 - 1) / u1\<close> and then: draws again if \<open>\<bar>angle\<bar> > pi\<close>; otherwise
  leaves the loop with \<open>angle\<close> if \<open>kappa * angle\<^sup>2 < 4 - 4 * u1\<close>; otherwise draws again
  if \<open>kappa * cos angle < 2 * ln u1 + kappa\<close>; otherwise leaves the loop with \<open>angle\<close>.
\<close>

theorem sample_while_pass:
  assumes "rand L g = (r1, g1)" and "rand L g1 = (r2, g2)" and "0 < uniform L r1"
  shows "sample_while L kappa s g =
     (let u1 = uniform L r1; u2 = uniform L r2; angle = s * (2 * u2 - 1) / u1 in
      if \<bar>angle\<bar> > pi then sample_while L kappa s g2
      else if kappa * angle\<^sup>2 < 4 - 4 * u1 then Some (Fin angle, g2)
      else if kappa * cos angle < 2 * ln u1 + kappa then sample_while L kappa s g2
      else Some (Fin angle, g2))"
  using assms
  by (subst sample_while.simps) (simp add: sample_angle_Fin sample_test_Fin Let_def)

theorem sample_while_pass_witness:
  "rand iso_libc 11711965926792381563 = (20556, 1272069226652029592) \<and>
   rand iso_libc 1272069226652029592 = (4720, 16017439702293424881) \<and>
   0 < uniform iso_libc 20556 \<and>
   sample_while iso_libc 4 (1 / 2) 11711965926792381563 =
     Some (Fin (- 23327 / 41112), 16017439702293424881)"
proof -
  have r1: "rand iso_libc 11711965926792381563 = (20556, 1272069226652029592)"
    by (simp add: iso_rand)
  have r2: "rand iso_libc 1272069226652029592 = (4720, 16017439702293424881)"
    by (simp add: iso_rand)
  have u: "0 < uniform iso_libc 20556" by (simp add: iso_uniform)
  have p: "\<not> pi < 23327 / 41112" using pi_ge_two by linarith
  from sample_while_pass [OF r1 r2 u, of 4 "1 / 2"] p
  have "sample_while iso_libc 4 (1 / 2) 11711965926792381563 =
      Some (Fin (- 23327 / 41112), 16017439702293424881)"
    by (simp add: iso_uniform power_divide)
  with r1 r2 u show ?thesis by blast
qed

section \<open>A draw that is zero\<close>

text \<open>
  Claim C5, as stated, fails: \<^verbatim>\<open>rand()\<close> may return 0, the first draw is then 0 and the
  candidate angle is the quotient of a division by zero.
\<close>

theorem uniform_zero_counterexample:
  "uniform (constant_libc 2147483647 0) (fst (rand (constant_libc 2147483647 0) ())) = 0 \<and>
   sample_angle (samplingParameter 0) 0 0 = NInf"
  by (simp add: constant_libc_def uniform_def sample_angle_def div_double_def
      samplingParameter_def)

text \<open>
  Claim C5, amended. The divisor \<open>u1\<close> lies between 0 and 1 and is zero exactly when
  \<^verbatim>\<open>rand()\<close> returned 0. The division is then a floating-point division by zero: when the
  numerator \<open>s * (2 * u2 - 1)\<close> is not zero the candidate is an infinity, the range test
  rejects it and the loop draws again.
\<close>

theorem uniform_zero_draws_again:
  assumes "0 < RAND_MAX L" and "r1 \<le> RAND_MAX L"
  shows "0 \<le> uniform L r1 \<and> uniform L r1 \<le> 1 \<and> (uniform L r1 = 0 \<longleftrightarrow> r1 = 0) \<and>
    (r1 = 0 \<and> rand L g = (r1, g1) \<and> rand L g1 = (r2, g2) \<and>
     s * (2 * uniform L r2 - 1) \<noteq> 0 \<longrightarrow>
       sample_angle s (uniform L r1) (uniform L r2) \<in> {PInf, NInf} \<and>
       sample_while L kappa s g = sample_while L kappa s g2)"
proof -
  have u: "0 \<le> uniform L r1 \<and> uniform L r1 \<le> 1 \<and> (uniform L r1 = 0 \<longleftrightarrow> r1 = 0)"
    using assms by (simp add: uniform_def)
  have "sample_angle s (uniform L r1) (uniform L r2) \<in> {PInf, NInf} \<and>
       sample_while L kappa s g = sample_while L kappa s g2"
    if h: "r1 = 0" "rand L g = (r1, g1)" "rand L g1 = (r2, g2)"
      "s * (2 * uniform L r2 - 1) \<noteq> 0"
  proof -
    from h have z: "uniform L r1 = 0" by (simp add: uniform_def)
    from h z have a: "sample_angle s (uniform L r1) (uniform L r2) \<in> {PInf, NInf}"
      by (auto simp: sample_angle_def div_double_def)
    then have "sample_test kappa (uniform L r1)
        (sample_angle s (uniform L r1) (uniform L r2)) = Continue"
      by (auto simp: sample_test_def dbl_greater_def)
    with h a show ?thesis
      by (subst sample_while.simps) simp
  qed
  with u show ?thesis by blast
qed

theorem uniform_zero_draws_again_witness:
  "0 < RAND_MAX (constant_libc 2147483647 0) \<and> 0 \<le> RAND_MAX (constant_libc 2147483647 0) \<and>
   rand (constant_libc 2147483647 0) () = (0, ()) \<and>
   pi * (2 * uniform (constant_libc 2147483647 0) 0 - 1) \<noteq> 0 \<and>
   uniform (constant_libc 2147483647 0) 0 = 0 \<and>
   sample_angle pi (uniform (constant_libc 2147483647 0) 0)
     (uniform (constant_libc 2147483647 0) 0) = NInf"
  using uniform_zero_draws_again [of "constant_libc 2147483647 0" 0 "()" "()" 0 "()" pi 0]
  by (simp add: constant_libc_def uniform_def sample_angle_def div_double_def)

section \<open>The two-argument arctangent\<close>

lemma atan2_range: "- pi < atan2 y x \<and> atan2 y x \<le> pi"
proof -
  let ?t = "arctan (y / x)"
  have b: "- (pi / 2) < ?t" "?t < pi / 2"
    by (rule arctan_lbound, rule arctan_ubound)
  have pos: "0 < pi" by (rule pi_gt_zero)
  show ?thesis
  proof (cases "0 < x")
    case True
    with b pos show ?thesis by (simp add: atan2_def)
  next
    case nx: False
    show ?thesis
    proof (cases "x < 0")
      case x: True
      show ?thesis
      proof (cases "0 \<le> y")
        case True
        with x have "y / x \<le> 0" by (simp add: divide_nonneg_neg)
        then have "?t \<le> 0" by (simp add: arctan_le_zero_iff)
        moreover have "atan2 y x = ?t + pi" using x True by (simp add: atan2_def)
        ultimately show ?thesis using b pos by linarith
      next
        case False
        with x have "0 < y / x" by (simp add: divide_neg_neg)
        then have "0 < ?t" by (simp add: zero_less_arctan_iff)
        moreover have "atan2 y x = ?t - pi" using x False by (simp add: atan2_def)
        ultimately show ?thesis using b pos by linarith
      qed
    next
      case False
      with nx have "x = 0" by simp
      then have "atan2 y x = pi / 2 \<or> atan2 y x = - (pi / 2) \<or> atan2 y x = 0"
        by (simp add: atan2_def)
      then show ?thesis using pos by linarith
    qed
  qed
qed

lemma atan2_unit:
  assumes u: "x\<^sup>2 + y\<^sup>2 = 1"
  shows "cos (atan2 y x) = x \<and> sin (atan2 y x) = y"
proof -
  consider "0 < x" | "x < 0" | "x = 0" by linarith
  then show ?thesis
  proof cases
    case 1
    then have "1 + (y / x)\<^sup>2 = 1 / x\<^sup>2"
      using u by (simp add: field_simps power_divide)
    then have s: "sqrt (1 + (y / x)\<^sup>2) = 1 / x"
      using 1 by (simp add: real_sqrt_divide)
    show ?thesis using 1 by (simp add: atan2_def cos_arctan sin_arctan s)
  next
    case 2
    then have "1 + (y / x)\<^sup>2 = 1 / x\<^sup>2"
      using u by (simp add: field_simps power_divide)
    then have s: "sqrt (1 + (y / x)\<^sup>2) = - (1 / x)"
      using 2 by (simp add: real_sqrt_divide)
    show ?thesis using 2 by (simp add: atan2_def cos_arctan sin_arctan s)
  next
    case 3
    then have "y\<^sup>2 = 1" using u by simp
    then have "y = 1 \<or> y = - 1" by (simp add: power2_eq_1_iff)
    then show ?thesis using 3 by (auto simp: atan2_def)
  qed
qed

lemma atan2_sin_cos:
  "\<exists>k::int. atan2 (sin t) (cos t) = t + 2 * pi * real_of_int k"
proof -
  have "cos (atan2 (sin t) (cos t)) = cos t \<and> sin (atan2 (sin t) (cos t)) = sin t"
    by (rule atan2_unit) (simp add: add.commute)
  then show ?thesis using sin_cos_eq_iff [of "atan2 (sin t) (cos t)" t] by blast
qed

text \<open>On the canonical range the wrapping changes nothing.\<close>

lemma atan2_sin_cos_id:
  assumes "- pi < t" and "t \<le> pi"
  shows "atan2 (sin t) (cos t) = t"
proof -
  obtain k :: int where k: "atan2 (sin t) (cos t) = t + 2 * pi * real_of_int k"
    using atan2_sin_cos by blast
  have r: "- pi < atan2 (sin t) (cos t)" "atan2 (sin t) (cos t) \<le> pi"
    using atan2_range [of "sin t" "cos t"] by simp_all
  have "k = 0"
  proof (rule ccontr)
    assume "k \<noteq> 0"
    then consider "k \<le> - 1" | "1 \<le> k" by linarith
    then show False
    proof cases
      case 1
      then have "real_of_int k \<le> - 1" by linarith
      then have "2 * pi * real_of_int k \<le> 2 * pi * (- 1)"
        by (intro mult_left_mono) simp_all
      with k r assms show False by linarith
    next
      case 2
      then have "1 \<le> real_of_int k" by linarith
      then have "2 * pi * 1 \<le> 2 * pi * real_of_int k"
        by (intro mult_left_mono) simp_all
      with k r assms show False by linarith
    qed
  qed
  with k show ?thesis by simp
qed

section \<open>The angle that leaves the rejection loop\<close>

text \<open>With an odd \<^verbatim>\<open>RAND_MAX\<close> no draw is one half, so no candidate is \<open>0 / 0\<close>.\<close>

lemma uniform_not_half: "odd (RAND_MAX L) \<Longrightarrow> 2 * uniform L r \<noteq> 1"
proof
  assume o: "odd (RAND_MAX L)" and h: "2 * uniform L r = 1"
  from o have p: "RAND_MAX L \<noteq> 0" by (auto intro: Nat.gr0I)
  from h p have "2 * real r = real (RAND_MAX L)"
    by (simp add: uniform_def field_simps)
  then have "2 * r = RAND_MAX L" by linarith
  with o show False by (metis even_mult_iff even_numeral)
qed

text \<open>Whenever the loop returns, it returns a finite angle between \<open>- pi\<close> and \<open>pi\<close>.\<close>

lemma sample_while_Some:
  assumes ret: "sample_while L kappa s g = Some y"
  shows "0 < s \<longrightarrow> odd (RAND_MAX L) \<longrightarrow> (\<exists>a. fst y = Fin a \<and> \<bar>a\<bar> \<le> pi)"
proof (rule sample_while.raw_induct
    [where P = "\<lambda>L kappa s g y. 0 < s \<longrightarrow> odd (RAND_MAX L) \<longrightarrow> (\<exists>a. fst y = Fin a \<and> \<bar>a\<bar> \<le> pi)",
      OF _ ret])
  fix f :: "'a libc \<Rightarrow> real \<Rightarrow> real \<Rightarrow> 'a \<Rightarrow> (dbl \<times> 'a) option"
  fix L kappa s g y
  assume IH: "\<And>L kappa s g y. f L kappa s g = Some y \<Longrightarrow>
      0 < s \<longrightarrow> odd (RAND_MAX L) \<longrightarrow> (\<exists>a. fst y = Fin a \<and> \<bar>a\<bar> \<le> pi)"
  assume body: "(let (r1, g1) = rand L g; randomSample1 = uniform L r1;
          (r2, g2) = rand L g1; randomSample2 = uniform L r2;
          angle = sample_angle s randomSample1 randomSample2
      in if sample_test kappa randomSample1 angle = Continue
         then f L kappa s g2 else Some (angle, g2)) = Some y"
  show "0 < s \<longrightarrow> odd (RAND_MAX L) \<longrightarrow> (\<exists>a. fst y = Fin a \<and> \<bar>a\<bar> \<le> pi)"
  proof (intro impI)
    assume s: "0 < s" and o: "odd (RAND_MAX L)"
    obtain r1 g1 where r1: "rand L g = (r1, g1)" by (cases "rand L g")
    obtain r2 g2 where r2: "rand L g1 = (r2, g2)" by (cases "rand L g1")
    let ?angle = "sample_angle s (uniform L r1) (uniform L r2)"
    show "\<exists>a. fst y = Fin a \<and> \<bar>a\<bar> \<le> pi"
    proof (cases "sample_test kappa (uniform L r1) ?angle")
      case Continue
      with body r1 r2 have "f L kappa s g2 = Some y" by simp
      from IH [OF this] s o show ?thesis by simp
    next
      case Break
      with body r1 r2 have y: "y = (?angle, g2)" by simp
      from s o have "?angle \<noteq> NaN"
        by (simp add: sample_angle_NaN uniform_not_half)
      with sample_test_Break [OF Break] y show ?thesis by auto
    qed
  qed
qed

section \<open>The loop over the output vector\<close>

text \<open>The loop keeps the length of the vector and only stores at the indices it visits.\<close>

lemma sample_for_frame:
  "sample_for L mu kappa s numSamples i angles g = Some (Inr out) \<Longrightarrow>
   length out = length angles \<and> (\<forall>j. j < i \<or> numSamples \<le> j \<longrightarrow> out ! j = angles ! j)"
proof (induction L mu kappa s numSamples i angles g rule: sample_for.induct)
  case (1 L mu kappa s numSamples i angles g)
  show ?case
  proof (cases "i < numSamples")
    case False
    with "1.prems" show ?thesis by (simp add: sample_for.simps)
  next
    case True
    with "1.prems" obtain angle g' where w: "sample_while L kappa s g = Some (angle, g')"
      and len: "i < length angles"
      and rest: "sample_for L mu kappa s numSamples (i + 1)
                   (angles[i := sample_assign angle mu]) g' = Some (Inr out)"
      by (subst (asm) sample_for.simps) (auto split: option.splits if_splits)
    from "1.IH" [OF True w refl len rest] True show ?thesis
      by (auto simp: nth_list_update)
  qed
qed

lemma sample_for_length:
  "sample_for L mu kappa s numSamples i angles g = Some (Inr out) \<Longrightarrow> length out = length angles"
  by (simp add: sample_for_frame)

text \<open>Pass \<open>i\<close> stores the wrapped angle at index \<open>i\<close>, and no later pass touches it.\<close>

lemma sample_for_step:
  assumes "i < numSamples" and "sample_while L kappa s g = Some (angle, g')"
    and "sample_for L mu kappa s numSamples i angles g = Some (Inr out)"
  shows "i < length angles \<and> out ! i = sample_assign angle mu \<and>
    sample_for L mu kappa s numSamples (i + 1) (angles[i := sample_assign angle mu]) g' = Some (Inr out)"
proof -
  have unfold: "sample_for L mu kappa s numSamples i angles g =
      (if i < length angles
       then sample_for L mu kappa s numSamples (i + 1) (angles[i := sample_assign angle mu]) g'
       else Some (Inl Undefined_behaviour))"
    using assms(1,2) by (subst sample_for.simps) simp
  with assms(3) have len: "i < length angles"
      and rest: "sample_for L mu kappa s numSamples (i + 1)
                   (angles[i := sample_assign angle mu]) g' = Some (Inr out)"
    by (auto split: if_splits)
  from sample_for_frame [OF rest] len show ?thesis using rest by simp
qed

lemma sample_assign_Fin:
  "sample_assign (Fin a) mu = Fin (atan2 (sin (a + mu)) (cos (a + mu)))"
  by (simp add: sample_assign_def)

lemma sample_for_range:
  "sample_for L mu kappa s numSamples i angles g = Some (Inr out) \<Longrightarrow> 0 < s \<Longrightarrow>
   odd (RAND_MAX L) \<Longrightarrow> i \<le> j \<Longrightarrow> j < numSamples \<Longrightarrow>
   \<exists>x. out ! j = Fin x \<and> - pi < x \<and> x \<le> pi"
proof (induction L mu kappa s numSamples i angles g rule: sample_for.induct)
  case (1 L mu kappa s numSamples i angles g)
  from "1.prems" have lt: "i < numSamples" by simp
  with "1.prems"(1) obtain angle g' where w: "sample_while L kappa s g = Some (angle, g')"
    by (subst (asm) sample_for.simps) (auto split: option.splits if_splits)
  from sample_for_step [OF lt w "1.prems"(1)]
  have len: "i < length angles" and here: "out ! i = sample_assign angle mu"
    and rest: "sample_for L mu kappa s numSamples (i + 1)
                 (angles[i := sample_assign angle mu]) g' = Some (Inr out)"
    by simp_all
  show ?case
  proof (cases "j = i")
    case True
    from sample_while_Some [OF w] "1.prems" obtain a where "angle = Fin a" by auto
    with here True show ?thesis by (simp add: sample_assign_Fin atan2_range)
  next
    case False
    with "1.prems" have "i + 1 \<le> j" by simp
    from "1.IH" [OF lt w refl len rest "1.prems"(2,3) this "1.prems"(5)] show ?thesis .
  qed
qed

text \<open>If every rejection loop returns, so does the loop over the vector.\<close>

lemma sample_for_returns:
  "\<forall>g. sample_while L kappa s g \<noteq> None \<Longrightarrow> numSamples \<le> length angles \<Longrightarrow>
   \<exists>out. sample_for L mu kappa s numSamples i angles g = Some (Inr out)"
proof (induction L mu kappa s numSamples i angles g rule: sample_for.induct)
  case (1 L mu kappa s numSamples i angles g)
  show ?case
  proof (cases "i < numSamples")
    case False
    then show ?thesis by (subst sample_for.simps) simp
  next
    case True
    from "1.prems"(1) obtain angle g' where w: "sample_while L kappa s g = Some (angle, g')"
      by (cases "sample_while L kappa s g") fastforce+
    from True "1.prems"(2) have len: "i < length angles" by simp
    from "1.prems"(2) have len': "numSamples \<le> length (angles[i := sample_assign angle mu])"
      by simp
    from "1.IH" [OF True w refl len "1.prems"(1) len'] True w len show ?thesis
      by (subst sample_for.simps) simp
  qed
qed

section \<open>The sampler on the constant generator\<close>

text \<open>
  When \<^verbatim>\<open>rand()\<close> always returns \<^verbatim>\<open>RAND_MAX\<close>, both draws are 1; for \<open>kappa = 0\<close> the
  candidate is \<open>pi\<close>, which the last test accepts, and every sample is \<open>pi\<close>.
\<close>

lemma sample_while_constant:
  "0 < m \<Longrightarrow> sample_while (constant_libc m m) 0 pi () = Some (Fin pi, ())"
  by (subst sample_while.simps)
    (simp add: constant_libc_def uniform_def sample_angle_Fin sample_test_Fin)

lemma sample_for_unit:
  fixes L :: "unit libc"
  assumes w: "sample_while L kappa s () = Some (a, ())"
  shows "i \<le> n \<Longrightarrow> length angles = n \<Longrightarrow>
    sample_for L mu kappa s n i angles () =
      Some (Inr (take i angles @ replicate (n - i) (sample_assign a mu)))"
proof (induction "n - i" arbitrary: i angles)
  case 0
  then show ?case by (subst sample_for.simps) simp
next
  case (Suc d)
  then have lt: "i < n" and d: "d = n - (i + 1)" by simp_all
  have len: "length (angles[i := sample_assign a mu]) = n" using Suc.prems by simp
  from lt have le: "i + 1 \<le> n" by simp
  have "sample_for L mu kappa s n i angles () =
      sample_for L mu kappa s n (i + 1) (angles[i := sample_assign a mu]) ()"
    using lt w Suc.prems by (subst sample_for.simps) simp
  also have "\<dots> = Some (Inr (take (i + 1) (angles[i := sample_assign a mu]) @
      replicate (n - (i + 1)) (sample_assign a mu)))"
    by (rule Suc.hyps(1) [OF d le len])
  also have "take (i + 1) (angles[i := sample_assign a mu]) @
      replicate (n - (i + 1)) (sample_assign a mu) =
      take i angles @ replicate (n - i) (sample_assign a mu)"
  proof -
    have "take (i + 1) (angles[i := sample_assign a mu]) = take i angles @ [sample_assign a mu]"
      using lt Suc.prems by (simp add: take_Suc_conv_app_nth)
    moreover have "replicate (n - i) (sample_assign a mu) =
        sample_assign a mu # replicate (n - (i + 1)) (sample_assign a mu)"
      using lt by (cases "n - i") simp_all
    ultimately show ?thesis by simp
  qed
  finally show ?case .
qed

lemma sample_assign_pi: "sample_assign (Fin pi) 0 = Fin pi"
  by (simp add: sample_assign_def atan2_def)

lemma sample_constant:
  assumes "0 < m"
  shows "sample (constant_libc m m) c 0 0 (replicate n (Fin 0)) n =
     Some (Inr (replicate n (Fin pi)))"
proof -
  have "sample_for (constant_libc m m) 0 0 pi n 0 (replicate n (Fin 0)) () =
      Some (Inr (take 0 (replicate n (Fin 0)) @ replicate (n - 0) (sample_assign (Fin pi) 0)))"
    by (rule sample_for_unit [OF sample_while_constant [OF assms]]) simp_all
  then show ?thesis
    by (simp add: sample_def samplingParameter_def sample_assign_pi)
qed

section \<open>The sampler on the generator of the C standard\<close>

text \<open>
  Two runs for \<open>mu = 0\<close>, \<open>kappa = 4\<close> and two samples, seeded with 1700000095 and with
  1700000036. Every pass is decided by rational arithmetic: a candidate of absolute value
  at least 4 is rejected by the range test, and the others pass the first stopping test.
\<close>

lemma sample_assign_small:
  assumes "\<bar>a\<bar> < 2"
  shows "sample_assign (Fin a) 0 = Fin a"
proof -
  from assms pi_ge_two have "- pi < a" "a \<le> pi" by linarith+
  then show ?thesis by (simp add: sample_assign_Fin atan2_sin_cos_id)
qed

lemma sample_while_accept:
  assumes "rand L g = (r1, g1)" and "rand L g1 = (r2, g2)" and "0 < uniform L r1"
    and "a = s * (2 * uniform L r2 - 1) / uniform L r1"
    and "\<bar>a\<bar> \<le> 2" and "kappa * a\<^sup>2 < 4 - 4 * uniform L r1"
  shows "sample_while L kappa s g = Some (Fin a, g2)"
proof -
  from assms(5) pi_ge_two have "\<not> pi < \<bar>a\<bar>" by linarith
  with assms show ?thesis
    by (subst sample_while.simps) (simp add: sample_angle_Fin sample_test_Fin)
qed

lemma sample_while_reject:
  assumes "rand L g = (r1, g1)" and "rand L g1 = (r2, g2)" and "0 < uniform L r1"
    and "a = s * (2 * uniform L r2 - 1) / uniform L r1"
    and "4 \<le> \<bar>a\<bar>"
  shows "sample_while L kappa s g = sample_while L kappa s g2"
proof -
  from assms(5) pi_less_4 have "pi < \<bar>a\<bar>" by linarith
  with assms show ?thesis
    by (subst sample_while.simps) (simp add: sample_angle_Fin sample_test_Fin)
qed

lemma sample_for_two:
  assumes "sample_while L kappa s g = Some (a, g')"
    and "sample_while L kappa s g' = Some (b, g'')"
  shows "sample_for L mu kappa s 2 0 [x, y] g =
    Some (Inr [sample_assign a mu, sample_assign b mu])"
proof -
  have "sample_for L mu kappa s 2 0 [x, y] g =
      sample_for L mu kappa s 2 1 [sample_assign a mu, y] g'"
    using assms(1) by (subst sample_for.simps) simp
  also have "\<dots> = sample_for L mu kappa s 2 2 [sample_assign a mu, sample_assign b mu] g''"
    using assms(2) by (subst sample_for.simps) (simp add: numeral_2_eq_2)
  also have "\<dots> = Some (Inr [sample_assign a mu, sample_assign b mu])"
    by (subst sample_for.simps) simp
  finally show ?thesis .
qed

lemma iso_a_pass_1:
  "sample_while iso_libc 4 (1 / 2) 1700000095 =
     Some (Fin (- 2741 / 12972), 11711965926792381563)"
proof -
  have "sample_while iso_libc 4 (1 / 2) 1700000095 =
      sample_while iso_libc 4 (1 / 2) 12445471185173167221"
    by (rule sample_while_reject [where ?r1.0 = 1730 and ?g1.0 = 1875976021333960620 and ?r2.0 = 7835
          and a = "- 17097 / 3460"])
      (simp_all add: iso_rand iso_uniform)
  also have "\<dots> = Some (Fin (- 2741 / 12972), 11711965926792381563)"
    by (rule sample_while_accept [where ?r1.0 = 19458 and ?g1.0 = 16005942692135736330 and ?r2.0 = 12272])
      (simp_all add: iso_rand iso_uniform power_divide)
  finally show ?thesis .
qed

lemma iso_a_pass_2:
  "sample_while iso_libc 4 (1 / 2) 11711965926792381563 =
     Some (Fin (- 23327 / 41112), 16017439702293424881)"
  by (rule sample_while_accept [where ?r1.0 = 20556 and ?g1.0 = 1272069226652029592 and ?r2.0 = 4720])
    (simp_all add: iso_rand iso_uniform power_divide)

lemma iso_b_pass_1:
  "sample_while iso_libc 4 (1 / 2) 1700000036 =
     Some (Fin (1603 / 48156), 14385439619114182210)"
  by (rule sample_while_accept [where ?r1.0 = 24078 and ?g1.0 = 1875975956226561165 and ?r2.0 = 17185])
    (simp_all add: iso_rand iso_uniform power_divide)

lemma iso_b_pass_2:
  "sample_while iso_libc 4 (1 / 2) 14385439619114182210 =
     Some (Fin (299 / 688), 1537718844526754704)"
  by (rule sample_while_accept [where ?r1.0 = 12040 and ?g1.0 = 4703018453668730451 and ?r2.0 = 21616])
    (simp_all add: iso_rand iso_uniform power_divide)

lemma iso_a_sample:
  "sample iso_libc \<lparr>time_NULL = 1700000000, clock_ticks = 88, random_long = 7, generator = g\<rparr> 0 4
     [Fin 0, Fin 0] 2 =
   Some (Inr [Fin (- 2741 / 12972), Fin (- 23327 / 41112)])"
proof -
  have seed: "srand iso_libc
      (sample_seed \<lparr>time_NULL = 1700000000, clock_ticks = 88, random_long = 7, generator = g\<rparr>)
      g = 1700000095"
    by (simp add: iso_libc_def sample_seed_def)
  show ?thesis
    by (simp add: sample_def seed samplingParameter_def
        sample_for_two [OF iso_a_pass_1 iso_a_pass_2] sample_assign_small)
qed

lemma iso_b_sample:
  "sample iso_libc \<lparr>time_NULL = 1700000000, clock_ticks = 29, random_long = 7, generator = g\<rparr> 0 4
     [Fin 0, Fin 0] 2 =
   Some (Inr [Fin (1603 / 48156), Fin (299 / 688)])"
proof -
  have seed: "srand iso_libc
      (sample_seed \<lparr>time_NULL = 1700000000, clock_ticks = 29, random_long = 7, generator = g\<rparr>)
      g = 1700000036"
    by (simp add: iso_libc_def sample_seed_def)
  show ?thesis
    by (simp add: sample_def seed samplingParameter_def
        sample_for_two [OF iso_b_pass_1 iso_b_pass_2] sample_assign_small)
qed

section \<open>Range and recentring of the samples\<close>

text \<open>
  Claim C3. On a platform whose \<^verbatim>\<open>RAND_MAX\<close> is odd, every sample that \<open>sample\<close> returns
  is a finite number in the half-open interval from \<open>- pi\<close> (excluded) to \<open>pi\<close> (included).
\<close>

theorem sample_range:
  assumes "odd (RAND_MAX L)"
    and "sample L c mu kappa angles numSamples = Some (Inr out)"
    and "i < numSamples"
  shows "\<exists>x. out ! i = Fin x \<and> - pi < x \<and> x \<le> pi"
  using assms sample_for_range [of L mu kappa "samplingParameter kappa" numSamples 0 angles
      "srand L (sample_seed c) (generator c)" out i]
  by (simp add: sample_def samplingParameter_pos)

theorem sample_range_witness:
  "odd (RAND_MAX iso_libc) \<and>
   sample iso_libc \<lparr>time_NULL = 1700000000, clock_ticks = 88, random_long = 7, generator = 42\<rparr> 0 4
     [Fin 0, Fin 0] 2 = Some (Inr [Fin (- 2741 / 12972), Fin (- 23327 / 41112)]) \<and>
   (\<exists>x. [Fin (- 2741 / 12972), Fin (- 23327 / 41112)] ! 1 = Fin x \<and> - pi < x \<and> x \<le> pi)"
proof -
  have o: "odd (RAND_MAX iso_libc)" by (simp add: iso_libc_def)
  have i: "(1::nat) < 2" by simp
  from sample_range [OF o iso_a_sample i] o iso_a_sample show ?thesis by blast
qed

text \<open>
  Claim C4. The sample stored for an accepted angle is
  \<open>atan2 (sin (angle + mu)) (cos (angle + mu))\<close>: it differs from \<open>angle + mu\<close> by a
  whole number of turns and lies in the canonical range.
\<close>

theorem sample_for_assigns:
  assumes "i < numSamples"
    and "sample_while L kappa s g = Some (Fin angle, g')"
    and "sample_for L mu kappa s numSamples i angles g = Some (Inr out)"
  shows "out ! i = Fin (atan2 (sin (angle + mu)) (cos (angle + mu))) \<and>
    (\<exists>k::int. atan2 (sin (angle + mu)) (cos (angle + mu)) = angle + mu + 2 * pi * real_of_int k) \<and>
    - pi < atan2 (sin (angle + mu)) (cos (angle + mu)) \<and>
    atan2 (sin (angle + mu)) (cos (angle + mu)) \<le> pi"
  using sample_for_step [OF assms] atan2_sin_cos [of "angle + mu"]
    atan2_range [of "sin (angle + mu)" "cos (angle + mu)"]
  by (simp add: sample_assign_Fin)

theorem sample_for_assigns_witness:
  "sample_while iso_libc 4 (1 / 2) 1700000095 =
     Some (Fin (- 2741 / 12972), 11711965926792381563) \<and>
   sample_for iso_libc 0 4 (1 / 2) 2 0 [Fin 0, Fin 0] 1700000095 =
     Some (Inr [Fin (- 2741 / 12972), Fin (- 23327 / 41112)]) \<and>
   [Fin (- 2741 / 12972), Fin (- 23327 / 41112)] ! 0 =
     Fin (atan2 (sin (- 2741 / 12972 + 0)) (cos (- 2741 / 12972 + 0))) \<and>
   (\<exists>k::int. atan2 (sin (- 2741 / 12972 + 0)) (cos (- 2741 / 12972 + 0)) =
      - 2741 / 12972 + 0 + 2 * pi * real_of_int k)"
proof -
  have i: "(0::nat) < 2" by simp
  have f: "sample_for iso_libc 0 4 (1 / 2) 2 0 [Fin 0, Fin 0] 1700000095 =
      Some (Inr [Fin (- 2741 / 12972), Fin (- 23327 / 41112)])"
    by (simp add: sample_for_two [OF iso_a_pass_1 iso_a_pass_2] sample_assign_small)
  from sample_for_assigns [OF i iso_a_pass_1 f] iso_a_pass_1 f show ?thesis by blast
qed

section \<open>Calls through the entry point\<close>

lemma trunc_pos: "0 \<le> x \<Longrightarrow> trunc x = \<lfloor>x\<rfloor>"
  by (simp add: trunc_def)



text \<open>
  Through the entry point the vector has no other elements: on a platform whose
  \<^verbatim>\<open>RAND_MAX\<close> is odd, everything returned lies in the canonical range.
\<close>

lemma mexFunction_range:
  assumes "odd (RAND_MAX L)" and "mexFunction L c nlhs prhs = Some (Inr out)"
    and "d \<in> set out"
  shows "\<exists>x. d = Fin x \<and> - pi < x \<and> x \<le> pi"
proof (cases "mexFunction_check nlhs prhs")
  case (Inl e)
  with assms(2) show ?thesis by (simp add: mexFunction_def)
next
  case (Inr t)
  obtain mu kappa n where t: "t = (mu, kappa, n)" by (cases t)
  from assms(2) Inr t
  have run: "sample_for L mu kappa (samplingParameter kappa) n 0 (replicate n (Fin 0))
      (srand L (sample_seed c) (generator c)) = Some (Inr out)"
    by (simp add: mexFunction_def sample_def)
  from sample_for_length [OF run] have len: "length out = n" by simp
  from assms(3) obtain i where i: "i < length out" "d = out ! i"
    by (auto simp: in_set_conv_nth)
  with len have "i < n" by simp
  from sample_for_range [OF run samplingParameter_pos assms(1) _ this] i(2)
  show ?thesis by simp
qed

text \<open>An error other than undefined behaviour comes from the checks, never from the loops.\<close>

lemma sample_for_error:
  "sample_for L mu kappa s numSamples i angles g = Some (Inl e) \<Longrightarrow> e = Undefined_behaviour"
proof (induction L mu kappa s numSamples i angles g rule: sample_for.induct)
  case (1 L mu kappa s numSamples i angles g)
  show ?case
  proof (cases "i < numSamples")
    case False
    with "1.prems" show ?thesis by (simp add: sample_for.simps)
  next
    case True
    with "1.prems" obtain angle g' where w: "sample_while L kappa s g = Some (angle, g')"
      by (subst (asm) sample_for.simps) (auto split: option.splits)
    show ?thesis
    proof (cases "i < length angles")
      case False
      with True w "1.prems" show ?thesis by (simp add: sample_for.simps)
    next
      case len: True
      with True w "1.prems"
      have "sample_for L mu kappa s numSamples (i + 1) (angles[i := sample_assign angle mu]) g' =
          Some (Inl e)"
        by (subst (asm) sample_for.simps) simp
      from "1.IH" [OF True w refl len this] show ?thesis .
    qed
  qed
qed

lemma mexFunction_error:
  assumes "mexFunction L c nlhs prhs = Some (Inl e)" and "e \<noteq> Undefined_behaviour"
  shows "mexFunction_check nlhs prhs = Inl e"
proof (cases "mexFunction_check nlhs prhs")
  case (Inl e')
  with assms(1) show ?thesis by (simp add: mexFunction_def)
next
  case (Inr t)
  obtain mu kappa n where t: "t = (mu, kappa, n)" by (cases t)
  from assms(1) Inr t
  have "sample_for L mu kappa (samplingParameter kappa) n 0 (replicate n (Fin 0))
      (srand L (sample_seed c) (generator c)) = Some (Inl e)"
    by (simp add: mexFunction_def sample_def)
  from sample_for_error [OF this] assms(2) show ?thesis by simp
qed

lemma mexFunction_check_two:
  "mexFunction_check 1 [MxArray True True mu, MxArray True True kappa] =
     (if mu < - pi \<or> pi < mu then Inl Err_notScalar
      else if kappa < 0 then Inl Err_notRealPositiveScalar
      else Inr (mu, kappa, 1))"
  by (simp add: mexFunction_check_def)

lemma mexFunction_check_three:
  "mexFunction_check 1 [MxArray True True mu, MxArray True True kappa, MxArray True True x] =
     (if mu < - pi \<or> pi < mu then Inl Err_notScalar
      else if kappa < 0 then Inl Err_notRealPositiveScalar
      else if x \<le> 0 then Inl Err_notIntPositiveScalar
      else case cast_int x of
             None \<Rightarrow> Inl Undefined_behaviour
           | Some n \<Rightarrow> Inr (mu, kappa, nat n))"
  by (simp add: mexFunction_check_def split: option.splits)

text \<open>The two runs on the generator of the C standard, through the entry point.\<close>

lemma mexFunction_check_4_2:
  "mexFunction_check 1 [MxArray True True 0, MxArray True True 4, MxArray True True 2] =
     Inr (0, 4, 2)"
  by (simp add: mexFunction_check_three cast_int_def trunc_def)

lemma replicate_2: "replicate 2 x = [x, x]"
  by (simp add: numeral_2_eq_2)

lemma iso_a_run:
  "mexFunction iso_libc \<lparr>time_NULL = 1700000000, clock_ticks = 88, random_long = 7, generator = g\<rparr> 1
     [MxArray True True 0, MxArray True True 4, MxArray True True 2] =
   Some (Inr [Fin (- 2741 / 12972), Fin (- 23327 / 41112)])"
  by (simp add: mexFunction_def mexFunction_check_4_2 replicate_2 iso_a_sample)

lemma iso_b_run:
  "mexFunction iso_libc \<lparr>time_NULL = 1700000000, clock_ticks = 29, random_long = 7, generator = g\<rparr> 1
     [MxArray True True 0, MxArray True True 4, MxArray True True 2] =
   Some (Inr [Fin (1603 / 48156), Fin (299 / 688)])"
  by (simp add: mexFunction_def mexFunction_check_4_2 replicate_2 iso_b_sample)

lemma mexFunction_check_error:
  "mexFunction_check nlhs prhs = Inl e \<Longrightarrow> mexFunction L c nlhs prhs = Some (Inl e)"
  by (simp add: mexFunction_def)

text \<open>
  For double scalar arguments and a count that is a whole number (or omitted), the call
  fails with one of the three parameter errors exactly when \<open>mu\<close> is outside
  \<open>[- pi, pi]\<close>, \<open>kappa\<close> is negative or the count is below 1. The error is then the same
  for every library and clock: no random number is drawn, and no samples are returned.
\<close>

lemma mexFunction_invalid_parameter:
  fixes L :: "'g libc"
  assumes "prhs = [MxArray True True mu, MxArray True True kappa] @
      (case count of None \<Rightarrow> [] | Some n \<Rightarrow> [MxArray True True (real_of_int n)])"
  shows "((\<exists>e. e \<in> {Err_notScalar, Err_notRealPositiveScalar, Err_notIntPositiveScalar} \<and>
            mexFunction L c 1 prhs = Some (Inl e)) \<longleftrightarrow>
          (mu < - pi \<or> pi < mu \<or> kappa < 0 \<or> (case count of None \<Rightarrow> 1 | Some n \<Rightarrow> n) < 1)) \<and>
         (mu < - pi \<or> pi < mu \<or> kappa < 0 \<or> (case count of None \<Rightarrow> 1 | Some n \<Rightarrow> n) < 1 \<longrightarrow>
            (\<exists>e. \<forall>L' :: 'g libc. \<forall>c'. mexFunction L' c' 1 prhs = Some (Inl e)))"
proof -
  let ?n = "case count of None \<Rightarrow> 1 | Some n \<Rightarrow> n"
  let ?bad = "mu < - pi \<or> pi < mu \<or> kappa < 0 \<or> ?n < 1"
  let ?E = "{Err_notScalar, Err_notRealPositiveScalar, Err_notIntPositiveScalar}"
  have bad: "\<exists>e \<in> ?E. mexFunction_check 1 prhs = Inl e" if ?bad
  proof (cases count)
    case None
    with that assms show ?thesis by (auto simp: mexFunction_check_two)
  next
    case (Some n)
    with that assms show ?thesis by (auto simp: mexFunction_check_three)
  qed
  have good: "\<forall>e \<in> ?E. mexFunction_check 1 prhs \<noteq> Inl e" if "\<not> ?bad"
  proof (cases count)
    case None
    with that assms show ?thesis by (auto simp: mexFunction_check_two)
  next
    case (Some n)
    with that assms show ?thesis
      by (auto simp: mexFunction_check_three split: option.splits)
  qed
  have iff: "(\<exists>e. e \<in> ?E \<and> mexFunction L c 1 prhs = Some (Inl e)) \<longleftrightarrow> ?bad"
  proof
    assume "\<exists>e. e \<in> ?E \<and> mexFunction L c 1 prhs = Some (Inl e)"
    then obtain e where e: "e \<in> ?E" "mexFunction L c 1 prhs = Some (Inl e)" by blast
    then have "e \<noteq> Undefined_behaviour" by auto
    with e have "mexFunction_check 1 prhs = Inl e"
      by (simp add: mexFunction_error [of L c])
    with e(1) good show ?bad by blast
  next
    assume ?bad
    from bad [OF this] obtain e where "e \<in> ?E" "mexFunction_check 1 prhs = Inl e" by blast
    then have "e \<in> ?E \<and> mexFunction L c 1 prhs = Some (Inl e)"
      by (simp add: mexFunction_check_error)
    then show "\<exists>e. e \<in> ?E \<and> mexFunction L c 1 prhs = Some (Inl e)" ..
  qed
  have indep: "?bad \<longrightarrow> (\<exists>e. \<forall>L' :: 'g libc. \<forall>c'. mexFunction L' c' 1 prhs = Some (Inl e))"
  proof
    assume ?bad
    from bad [OF this] obtain e where "mexFunction_check 1 prhs = Inl e" by blast
    then have "\<forall>L' :: 'g libc. \<forall>c'. mexFunction L' c' 1 prhs = Some (Inl e)"
      by (simp add: mexFunction_check_error)
    then show "\<exists>e. \<forall>L' :: 'g libc. \<forall>c'. mexFunction L' c' 1 prhs = Some (Inl e)" ..
  qed
  from iff indep show ?thesis by (rule conjI)
qed

text \<open>The three rejected calls that the specification lists as tests.\<close>

lemma mexFunction_boundary_rejection:
  "pi < 4 \<and>
   mexFunction (constant_libc 2147483647 2147483647)
     \<lparr>time_NULL = 1700000000, clock_ticks = 5, random_long = 7, generator = ()\<rparr> 1
     [MxArray True True 4, MxArray True True 1, MxArray True True 1] = Some (Inl Err_notScalar) \<and>
   mexFunction (constant_libc 2147483647 2147483647)
     \<lparr>time_NULL = 1700000000, clock_ticks = 5, random_long = 7, generator = ()\<rparr> 1
     [MxArray True True 0, MxArray True True (- 1), MxArray True True 1] =
     Some (Inl Err_notRealPositiveScalar) \<and>
   mexFunction (constant_libc 2147483647 2147483647)
     \<lparr>time_NULL = 1700000000, clock_ticks = 5, random_long = 7, generator = ()\<rparr> 1
     [MxArray True True 0, MxArray True True 1, MxArray True True 0] =
     Some (Inl Err_notIntPositiveScalar)"
proof -
  let ?L = "constant_libc 2147483647 2147483647"
  let ?c = "\<lparr>time_NULL = 1700000000, clock_ticks = 5, random_long = 7, generator = ()\<rparr>"
  have a: "\<exists>e. \<forall>L' :: unit libc. \<forall>c'. mexFunction L' c' 1
      [MxArray True True 4, MxArray True True 1, MxArray True True 1] = Some (Inl e)"
    using mexFunction_invalid_parameter [OF refl, where mu = 4 and kappa = 1 and count = "Some 1"
        and L = ?L and c = ?c] pi_less_4 by simp
  have a': "mexFunction_check 1 [MxArray True True 4, MxArray True True 1, MxArray True True 1] =
      Inl Err_notScalar"
    using pi_less_4 by (simp add: mexFunction_check_def)
  have b: "mexFunction ?L ?c 1
      [MxArray True True 0, MxArray True True (- 1), MxArray True True 1] =
      Some (Inl Err_notRealPositiveScalar)"
    by (simp add: mexFunction_def mexFunction_check_def)
  have d: "mexFunction ?L ?c 1 [MxArray True True 0, MxArray True True 1, MxArray True True 0] =
      Some (Inl Err_notIntPositiveScalar)"
    by (simp add: mexFunction_def mexFunction_check_def)
  from a a' have "mexFunction ?L ?c 1
      [MxArray True True 4, MxArray True True 1, MxArray True True 1] = Some (Inl Err_notScalar)"
    by (simp add: mexFunction_def)
  with b d pi_less_4 show ?thesis by blast
qed

text \<open>
  Claim C6 requires a call whose count is below 1 to fail with a parameter error. The
  check on the count only tests \<^verbatim>\<open>mxGetScalar( prhs[2] ) <= 0\<close>, although its message
  reads ``Number of samples must be an integer, positive scalar value''. The call with
  \<open>mu = 0\<close>, \<open>kappa = 1\<close> and the count 0.5 passes the checks with \<open>numSamples = 0\<close> and
  returns the empty vector.
\<close>

theorem mexFunction_half_count:
  "mexFunction_check 1 [MxArray True True 0, MxArray True True 1, MxArray True True (1 / 2)] =
     Inr (0, 1, 0) \<and>
   mexFunction L c 1 [MxArray True True 0, MxArray True True 1, MxArray True True (1 / 2)] =
     Some (Inr [])"
proof -
  have chk: "mexFunction_check 1
      [MxArray True True 0, MxArray True True 1, MxArray True True (1 / 2)] = Inr (0, 1, 0)"
    by (simp add: mexFunction_check_three cast_int_def trunc_def)
  then show ?thesis
    by (simp add: mexFunction_def sample_def sample_for.simps)
qed

theorem mexFunction_half_count_witness:
  "mexFunction (constant_libc 2147483647 2147483647)
     \<lparr>time_NULL = 1700000000, clock_ticks = 5, random_long = 7, generator = ()\<rparr> 1
     [MxArray True True 0, MxArray True True 1, MxArray True True (1 / 2)] = Some (Inr [])"
  using mexFunction_half_count [of "constant_libc 2147483647 2147483647"
      "\<lparr>time_NULL = 1700000000, clock_ticks = 5, random_long = 7, generator = ()\<rparr>"]
  by simp

text \<open>
  Claim C8, as stated, fails for large counts: the count \<open>2\<^sup>3\<^sup>1\<close> passes the checks, but
  its conversion to \<^verbatim>\<open>int\<close> is undefined and no vector of that length is returned.
\<close>

theorem mexFunction_count_counterexample:
  "mexFunction (constant_libc 2147483647 2147483647)
     \<lparr>time_NULL = 1700000000, clock_ticks = 5, random_long = 7, generator = ()\<rparr> 1
     [MxArray True True 0, MxArray True True 1, MxArray True True 2147483648] =
     Some (Inl Undefined_behaviour)"
  by (simp add: mexFunction_def mexFunction_check_def cast_int_def trunc_def)

text \<open>
  Claim C8, amended. Every count \<open>c\<close> with \<open>0 < c < 2\<^sup>3\<^sup>1\<close> passes the checks, whole or
  not; a vector that the call returns has \<open>\<lfloor>c\<rfloor>\<close> elements, and the call does return one
  whenever its rejection loops return; for \<open>0 < c < 1\<close> the call returns the empty vector.
\<close>

theorem mexFunction_fractional_count:
  assumes "- pi \<le> mu" and "mu \<le> pi" and "0 \<le> kappa" and "0 < cnt" and "cnt < 2 ^ 31"
  shows "mexFunction_check 1
      [MxArray True True mu, MxArray True True kappa, MxArray True True cnt] =
      Inr (mu, kappa, nat \<lfloor>cnt\<rfloor>) \<and>
    (\<forall>angles. mexFunction L c 1
        [MxArray True True mu, MxArray True True kappa, MxArray True True cnt] =
        Some (Inr angles) \<longrightarrow> length angles = nat \<lfloor>cnt\<rfloor>) \<and>
    ((\<forall>g. sample_while L kappa (samplingParameter kappa) g \<noteq> None) \<longrightarrow>
       (\<exists>angles. mexFunction L c 1
          [MxArray True True mu, MxArray True True kappa, MxArray True True cnt] =
          Some (Inr angles) \<and> length angles = nat \<lfloor>cnt\<rfloor>)) \<and>
    (cnt < 1 \<longrightarrow> mexFunction L c 1
        [MxArray True True mu, MxArray True True kappa, MxArray True True cnt] =
        Some (Inr []))"
proof -
  let ?prhs = "[MxArray True True mu, MxArray True True kappa, MxArray True True cnt]"
  from assms have fl: "0 \<le> \<lfloor>cnt\<rfloor>" "\<lfloor>cnt\<rfloor> < 2 ^ 31"
    by (simp_all add: floor_less_iff)
  with assms have chk: "mexFunction_check 1 ?prhs = Inr (mu, kappa, nat \<lfloor>cnt\<rfloor>)"
    by (simp add: mexFunction_check_def cast_int_def trunc_pos)
  have m: "mexFunction L c 1 ?prhs =
      sample_for L mu kappa (samplingParameter kappa) (nat \<lfloor>cnt\<rfloor>) 0
        (replicate (nat \<lfloor>cnt\<rfloor>) (Fin 0)) (srand L (sample_seed c) (generator c))"
    by (simp add: mexFunction_def chk sample_def)
  have len: "\<forall>angles. mexFunction L c 1 ?prhs = Some (Inr angles) \<longrightarrow>
      length angles = nat \<lfloor>cnt\<rfloor>"
    using sample_for_length [of L mu kappa "samplingParameter kappa" "nat \<lfloor>cnt\<rfloor>" 0
        "replicate (nat \<lfloor>cnt\<rfloor>) (Fin 0)" "srand L (sample_seed c) (generator c)"]
    by (simp add: m)
  have ret: "\<exists>angles. mexFunction L c 1 ?prhs = Some (Inr angles) \<and>
      length angles = nat \<lfloor>cnt\<rfloor>"
    if loops: "\<forall>g. sample_while L kappa (samplingParameter kappa) g \<noteq> None"
  proof -
    from sample_for_returns [OF loops, of "nat \<lfloor>cnt\<rfloor>" "replicate (nat \<lfloor>cnt\<rfloor>) (Fin 0)"
        mu 0 "srand L (sample_seed c) (generator c)"]
    obtain out where "mexFunction L c 1 ?prhs = Some (Inr out)"
      by (auto simp: m)
    with len show ?thesis by blast
  qed
  have "mexFunction L c 1 ?prhs = Some (Inr [])" if "cnt < 1"
  proof -
    from that assms have "\<lfloor>cnt\<rfloor> = 0" by (simp add: floor_eq_iff)
    then show ?thesis
      by (simp add: m sample_for.simps)
  qed
  with chk len ret show ?thesis by blast
qed

theorem mexFunction_fractional_count_witness:
  "- pi \<le> 0 \<and> (0::real) \<le> pi \<and> (0::real) \<le> 1 \<and> (0::real) < 1 / 2 \<and> (1 / 2 :: real) < 2 ^ 31 \<and>
   (1 / 2 :: real) < 1 \<and> (0::real) < 5 / 2 \<and> (5 / 2 :: real) < 2 ^ 31 \<and>
   mexFunction_check 1 [MxArray True True 0, MxArray True True 1, MxArray True True (1 / 2)] =
     Inr (0, 1, 0) \<and>
   mexFunction (constant_libc 2147483647 2147483647)
     \<lparr>time_NULL = 1700000000, clock_ticks = 5, random_long = 7, generator = ()\<rparr> 1
     [MxArray True True 0, MxArray True True 1, MxArray True True (1 / 2)] = Some (Inr []) \<and>
   mexFunction_check 1 [MxArray True True 0, MxArray True True 0, MxArray True True (5 / 2)] =
     Inr (0, 0, 2) \<and>
   (\<forall>g. sample_while (constant_libc 2147483647 2147483647) 0 (samplingParameter 0) g \<noteq> None) \<and>
   mexFunction (constant_libc 2147483647 2147483647)
     \<lparr>time_NULL = 1700000000, clock_ticks = 5, random_long = 7, generator = ()\<rparr> 1
     [MxArray True True 0, MxArray True True 0, MxArray True True (5 / 2)] =
     Some (Inr [Fin pi, Fin pi]) \<and>
   length [Fin pi, Fin pi] = nat \<lfloor>5 / 2 :: real\<rfloor> \<and>
   mexFunction iso_libc
     \<lparr>time_NULL = 1700000000, clock_ticks = 88, random_long = 7, generator = 42\<rparr> 1
     [MxArray True True 0, MxArray True True 4, MxArray True True (5 / 2)] =
     Some (Inr [Fin (- 2741 / 12972), Fin (- 23327 / 41112)])"
proof -
  let ?K = "constant_libc 2147483647 2147483647"
  let ?k = "\<lparr>time_NULL = 1700000000, clock_ticks = 5, random_long = 7, generator = ()\<rparr>"
  let ?i = "\<lparr>time_NULL = 1700000000, clock_ticks = 88, random_long = 7, generator = 42 :: nat\<rparr>"
  have half: "mexFunction_check 1
        [MxArray True True 0, MxArray True True 1, MxArray True True (1 / 2)] = Inr (0, 1, 0) \<and>
      mexFunction ?K ?k 1
        [MxArray True True 0, MxArray True True 1, MxArray True True (1 / 2)] = Some (Inr [])"
    using mexFunction_fractional_count [of 0 1 "1 / 2" ?K ?k] by simp
  have fl: "nat \<lfloor>5 / 2 :: real\<rfloor> = 2" by simp
  have loops: "\<forall>g. sample_while ?K 0 (samplingParameter 0) g \<noteq> None"
    by (simp add: samplingParameter_def sample_while_constant)
  have chk0: "mexFunction_check 1
      [MxArray True True 0, MxArray True True 0, MxArray True True (5 / 2)] = Inr (0, 0, 2)"
    using mexFunction_fractional_count [of 0 0 "5 / 2" ?K ?k] by (simp add: fl)
  have run0: "mexFunction ?K ?k 1
      [MxArray True True 0, MxArray True True 0, MxArray True True (5 / 2)] =
      Some (Inr [Fin pi, Fin pi])"
    using sample_constant [of 2147483647 ?k 2]
    by (simp add: mexFunction_def chk0 replicate_2)
  from mexFunction_fractional_count [of 0 0 "5 / 2" ?K ?k] loops run0
  have len0: "length [Fin pi, Fin pi] = nat \<lfloor>5 / 2 :: real\<rfloor>" by simp
  have chk4: "mexFunction_check 1
      [MxArray True True 0, MxArray True True 4, MxArray True True (5 / 2)] = Inr (0, 4, 2)"
    using mexFunction_fractional_count [of 0 4 "5 / 2" iso_libc ?i] by (simp add: fl)
  have run4: "mexFunction iso_libc ?i 1
      [MxArray True True 0, MxArray True True 4, MxArray True True (5 / 2)] =
      Some (Inr [Fin (- 2741 / 12972), Fin (- 23327 / 41112)])"
    by (simp add: mexFunction_def chk4 replicate_2 iso_a_sample)
  from half loops chk0 run0 len0 run4 show ?thesis by simp
qed

section \<open>The seed\<close>

text \<open>
  Claim C9, as stated, fails: the code takes no seed, and a seed fixed before the call
  does not survive it. Both calls below find the generator in the state that
  \<^verbatim>\<open>srand(42)\<close> leaves and have the same arguments; they read the clock at different
  ticks, reseed with different values and return different samples.
\<close>

theorem mexFunction_fixed_seed_counterexample:
  "mexFunction iso_libc
     \<lparr>time_NULL = 1700000000, clock_ticks = 88, random_long = 7,
        generator = srand iso_libc 42 0\<rparr> 1
     [MxArray True True 0, MxArray True True 4, MxArray True True 2] =
     Some (Inr [Fin (- 2741 / 12972), Fin (- 23327 / 41112)]) \<and>
   mexFunction iso_libc
     \<lparr>time_NULL = 1700000000, clock_ticks = 29, random_long = 7,
        generator = srand iso_libc 42 0\<rparr> 1
     [MxArray True True 0, MxArray True True 4, MxArray True True 2] =
     Some (Inr [Fin (1603 / 48156), Fin (299 / 688)]) \<and>
   mexFunction iso_libc
     \<lparr>time_NULL = 1700000000, clock_ticks = 88, random_long = 7,
        generator = srand iso_libc 42 0\<rparr> 1
     [MxArray True True 0, MxArray True True 4, MxArray True True 2] \<noteq>
   mexFunction iso_libc
     \<lparr>time_NULL = 1700000000, clock_ticks = 29, random_long = 7,
        generator = srand iso_libc 42 0\<rparr> 1
     [MxArray True True 0, MxArray True True 4, MxArray True True 2]"
  by (simp add: iso_a_run iso_b_run)

text \<open>
  Claim C9, amended. Every call reseeds the generator with
  \<^verbatim>\<open>time(NULL) + clock() + random()\<close>, converted to \<^verbatim>\<open>unsigned int\<close>. On a library whose
  \<^verbatim>\<open>srand\<close> leaves a state that depends on the seed only, two calls with the same
  arguments return the same whenever that sum is the same modulo \<open>2\<^sup>3\<^sup>2\<close> in both,
  whatever the state of the generator before each call.
\<close>

theorem mexFunction_reseeds:
  assumes "\<forall>seed g g'. srand L seed g = srand L seed g'"
    and "(time_NULL c1 + clock_ticks c1 + random_long c1) mod 2 ^ 32 =
         (time_NULL c2 + clock_ticks c2 + random_long c2) mod 2 ^ 32"
  shows "mexFunction L c1 nlhs prhs = mexFunction L c2 nlhs prhs"
proof -
  from assms(2)
  have "take_bit LENGTH(32) (time_NULL c1 + clock_ticks c1 + random_long c1) =
      take_bit LENGTH(32) (time_NULL c2 + clock_ticks c2 + random_long c2)"
    by (simp add: take_bit_eq_mod)
  then have seed: "sample_seed c1 = sample_seed c2"
    unfolding sample_seed_def by (rule word_of_int_eq_iff [THEN iffD2])
  from assms(1) have "srand L (sample_seed c2) (generator c1) =
      srand L (sample_seed c2) (generator c2)"
    by blast
  with seed have "sample L c1 mu kappa angles n = sample L c2 mu kappa angles n"
    for mu kappa angles n
    by (simp add: sample_def)
  then show ?thesis
    by (simp add: mexFunction_def split: sum.splits prod.splits)
qed

theorem mexFunction_reseeds_witness:
  "(\<forall>seed g g'. srand iso_libc seed g = srand iso_libc seed g') \<and>
   ((1700000000 + 88 + 7) mod 2 ^ 32 = ((1700000003 + 61 + 31) mod 2 ^ 32 :: int)) \<and>
   mexFunction iso_libc
     \<lparr>time_NULL = 1700000000, clock_ticks = 88, random_long = 7, generator = 42\<rparr> 1
     [MxArray True True 0, MxArray True True 4, MxArray True True 2] =
     Some (Inr [Fin (- 2741 / 12972), Fin (- 23327 / 41112)]) \<and>
   mexFunction iso_libc
     \<lparr>time_NULL = 1700000003, clock_ticks = 61, random_long = 31, generator = 9\<rparr> 1
     [MxArray True True 0, MxArray True True 4, MxArray True True 2] =
     Some (Inr [Fin (- 2741 / 12972), Fin (- 23327 / 41112)])"
proof -
  let ?c1 = "\<lparr>time_NULL = 1700000000, clock_ticks = 88, random_long = 7, generator = 42 :: nat\<rparr>"
  let ?c2 = "\<lparr>time_NULL = 1700000003, clock_ticks = 61, random_long = 31, generator = 9 :: nat\<rparr>"
  have r: "\<forall>seed g g'. srand iso_libc seed g = srand iso_libc seed g'"
    by (simp add: iso_libc_def)
  have e: "(time_NULL ?c1 + clock_ticks ?c1 + random_long ?c1) mod 2 ^ 32 =
      (time_NULL ?c2 + clock_ticks ?c2 + random_long ?c2) mod 2 ^ 32"
    by simp
  from mexFunction_reseeds [OF r e, of 1
      "[MxArray True True 0, MxArray True True 4, MxArray True True 2]"]
    iso_a_run [of 42] r
  show ?thesis by simp
qed

section \<open>When the rejection loop returns\<close>

text \<open>
  The loop returns exactly when some pass ends with \<^verbatim>\<open>break\<close>. Nothing bounds the
  number of passes: on a generator that always returns 0 every candidate is an infinity
  and the loop never returns.
\<close>

lemma verdict_not_Break: "v \<noteq> Break \<longleftrightarrow> v = Continue"
  by (cases v) simp_all

lemma sample_while_unfold:
  "sample_while L kappa s g =
     (if pass_breaks L kappa s g
      then Some (sample_angle s (uniform L (fst (rand L g)))
                   (uniform L (fst (rand L (snd (rand L g))))), next_pass L g)
      else sample_while L kappa s (next_pass L g))"
  by (subst sample_while.simps)
    (auto simp: pass_breaks_def next_pass_def Let_def verdict_not_Break split: prod.splits)

lemma sample_while_returns:
  "pass_breaks L kappa s ((next_pass L ^^ k) g) \<Longrightarrow> \<exists>y. sample_while L kappa s g = Some y"
proof (induction k arbitrary: g)
  case 0
  then show ?case by (subst sample_while_unfold) simp
next
  case (Suc k)
  then have "pass_breaks L kappa s ((next_pass L ^^ k) (next_pass L g))"
    by (simp add: funpow_swap1)
  from Suc.IH [OF this] show ?case by (subst sample_while_unfold) simp
qed

lemma sample_while_breaks:
  assumes ret: "sample_while L kappa s g = Some y"
  shows "\<exists>k. pass_breaks L kappa s ((next_pass L ^^ k) g)"
proof (rule sample_while.raw_induct
    [where P = "\<lambda>L kappa s g y. \<exists>k. pass_breaks L kappa s ((next_pass L ^^ k) g)", OF _ ret])
  fix f :: "'a libc \<Rightarrow> real \<Rightarrow> real \<Rightarrow> 'a \<Rightarrow> (dbl \<times> 'a) option"
  fix L kappa s g y
  assume IH: "\<And>L kappa s g y. f L kappa s g = Some y \<Longrightarrow>
      \<exists>k. pass_breaks L kappa s ((next_pass L ^^ k) g)"
  assume body: "(let (r1, g1) = rand L g; randomSample1 = uniform L r1;
          (r2, g2) = rand L g1; randomSample2 = uniform L r2;
          angle = sample_angle s randomSample1 randomSample2
      in if sample_test kappa randomSample1 angle = Continue
         then f L kappa s g2 else Some (angle, g2)) = Some y"
  show "\<exists>k. pass_breaks L kappa s ((next_pass L ^^ k) g)"
  proof (cases "pass_breaks L kappa s g")
    case True
    then have "pass_breaks L kappa s ((next_pass L ^^ 0) g)" by simp
    then show ?thesis ..
  next
    case False
    with body have "f L kappa s (next_pass L g) = Some y"
      by (auto simp: pass_breaks_def next_pass_def Let_def verdict_not_Break
          split: prod.splits if_splits)
    from IH [OF this] obtain k where "pass_breaks L kappa s ((next_pass L ^^ k) (next_pass L g))" ..
    then have "pass_breaks L kappa s ((next_pass L ^^ Suc k) g)" by (simp add: funpow_swap1)
    then show ?thesis ..
  qed
qed

lemma sample_while_never:
  assumes "s \<noteq> 0"
  shows "sample_while (constant_libc m 0) kappa s () = None"
proof (rule ccontr)
  assume "sample_while (constant_libc m 0) kappa s () \<noteq> None"
  then obtain y where "sample_while (constant_libc m 0) kappa s () = Some y" by blast
  from sample_while_breaks [OF this] obtain k
    where "pass_breaks (constant_libc m 0) kappa s ((next_pass (constant_libc m 0) ^^ k) ())" ..
  then have "pass_breaks (constant_libc m 0) kappa s ()" by simp
  with assms show False
    by (simp add: pass_breaks_def constant_libc_def uniform_def sample_angle_def div_double_def
        sample_test_def dbl_greater_def split: if_splits)
qed

end
